theory Spec2Isabelle
  imports Main "HOL-Library.Word"
begin

section \<open>GenesisPad: the capped free-mint token and its factory registry\<close>

text \<open>
  The contracts \<open>GenesisToken\<close> and \<open>GenesisTokenFactory\<close> (Solidity 0.8.27) are embedded
  as pure functions over explicit contract state. A call that reverts is the value
  \<open>Inl failure\<close>; it carries no state, because the EVM discards every write of a
  reverted call. A call that returns is \<open>Inr\<close> of the new state (and the return value).
  The Solidity source of both contracts is the second part of \<open>src/tasks/genesis.ts\<close>.
  Solidity names that end or begin with an underscore are written without it here:
  the parameters \<open>name_\<close>, \<open>symbol_\<close>, ... are \<open>name'\<close>, \<open>symbol'\<close>, ..., the array
  \<open>_tokens\<close> is \<open>tokens\<close>, and the base contract's \<open>_mint\<close> is \<open>erc_mint\<close>.
\<close>

subsection \<open>Values\<close>

type_synonym uint64 = "64 word"
type_synonym uint256 = "256 word"

text \<open>
  An address is an opaque account identifier. Deployed \<open>GenesisToken\<close> contracts are
  kept in a store (a list), and the address of a deployed token is its position there:
  every deployment gets an address no earlier contract has.
\<close>

type_synonym address = nat

text \<open>
  How a call can revert: a failed \<open>require(cond, reason)\<close>, a compiler-inserted panic
  (code \<open>0x11\<close>: checked arithmetic overflow, code \<open>0x32\<close>: array index out of bounds),
  or a revert raised inside code the contracts call but do not contain (the FHE
  library, the ERC7984 base contract, a call to an address without a contract).
\<close>

datatype failure = Require string | Panic nat | ExternalRevert

text \<open>
  The error taxonomy of the design: which kind of error each revert is.
  \<open>InvalidArgument\<close>: empty name or symbol, zero cap, zero mint amount;
  \<open>SupplyExceeded\<close>: cap violation; \<open>IndexOutOfRange\<close>: bad registry index.
\<close>

datatype error_kind =
  InvalidArgument | SupplyExceeded | IndexOutOfRange | CapabilityFailure | Unclassified

fun classify :: "failure \<Rightarrow> error_kind" where
  "classify (Require r) =
     (if r = ''Name required'' \<or> r = ''Symbol required'' \<or> r = ''Max supply required''
         \<or> r = ''Amount required'' then InvalidArgument
      else if r = ''Exceeds supply'' then SupplyExceeded
      else Unclassified)"
| "classify (Panic c) = (if c = 0x32 then IndexOutOfRange else Unclassified)"
| "classify ExternalRevert = CapabilityFailure"

datatype event =
  Minted address address uint64
| TokenCreated address address string string uint64 uint256

subsection \<open>The confidential-computation capability\<close>

text \<open>
  \<open>FHE.asEuint64\<close> and the \<open>_mint\<close> of the ERC7984 base contract are not part of the
  repository. They are parameters of the model: \<open>'l\<close> is the opaque encrypted ledger,
  \<open>'e\<close> the type of encrypted amounts; \<open>None\<close> means the capability reverted.
  \<open>ledger0\<close> is the ledger the base constructor leaves.
\<close>

record ('l, 'e) capability =
  ledger0 :: 'l
  asEuint64 :: "'l \<Rightarrow> uint64 \<Rightarrow> ('e \<times> 'l) option"
  erc_mint :: "'l \<Rightarrow> address \<Rightarrow> 'e \<Rightarrow> 'l option"

subsection \<open>Registry records\<close>

text \<open>
  The struct \<open>TokenMetadata\<close> of the factory. It is declared before the token so that
  the unqualified field names below are those of \<open>GenesisToken\<close>; the fields of a
  registry record are written \<open>TokenMetadata.name\<close>, \<open>TokenMetadata.mintedSupply\<close>, ...
\<close>

record TokenMetadata =
  token :: address
  name :: string
  symbol :: string
  maxSupply :: uint64
  mintedSupply :: uint64
  initialPriceWei :: uint256
  creator :: address

subsection \<open>GenesisToken\<close>

record 'l GenesisToken =
  name :: string
  symbol :: string
  maxSupply :: uint64
  mintedSupply :: uint64
  initialPriceWei :: uint256
  creator :: address
  ledger :: 'l
  emitted :: "event list"

definition GenesisToken_constructor ::
  "('l, 'e) capability \<Rightarrow> string \<Rightarrow> string \<Rightarrow> uint64 \<Rightarrow> uint256 \<Rightarrow> address
   \<Rightarrow> failure + 'l GenesisToken" where
  "GenesisToken_constructor cap name' symbol' maxSupply' initialPriceWei' creator' =
     (if \<not> (length name' > 0) then Inl (Require ''Name required'')
      else if \<not> (length symbol' > 0) then Inl (Require ''Symbol required'')
      else if \<not> (maxSupply' > 0) then Inl (Require ''Max supply required'')
      else Inr \<lparr> name = name', symbol = symbol', maxSupply = maxSupply',
                 mintedSupply = 0, initialPriceWei = initialPriceWei',
                 creator = creator', ledger = ledger0 cap, emitted = [] \<rparr>)"

text \<open>Addition on \<open>uint256\<close> is checked since Solidity 0.8: overflow panics with \<open>0x11\<close>.\<close>

definition checked_add :: "uint256 \<Rightarrow> uint256 \<Rightarrow> failure + uint256" where
  "checked_add a b =
     (if unat a + unat b < 2 ^ 256 then Inr (a + b) else Inl (Panic 0x11))"

text \<open>
  \<open>mint\<close>: the two guards, the supply update, then the confidential credit and the
  event. \<open>sender\<close> is \<open>msg.sender\<close>. \<open>uint256(mintedSupply)\<close> and the implicit widening
  of \<open>amount\<close> and \<open>maxSupply\<close> are \<open>ucast\<close> to 256 bits; \<open>uint64(newSupply)\<close> is the
  truncating \<open>ucast\<close> back to 64 bits.
\<close>

definition mint ::
  "('l, 'e) capability \<Rightarrow> address \<Rightarrow> address \<Rightarrow> uint64 \<Rightarrow> 'l GenesisToken
   \<Rightarrow> failure + 'l GenesisToken" where
  "mint cap sender to amount tk =
     (if \<not> (amount > 0) then Inl (Require ''Amount required'')
      else case checked_add (ucast (mintedSupply tk)) (ucast amount) of
        Inl e \<Rightarrow> Inl e
      | Inr newSupply \<Rightarrow>
          if \<not> (newSupply \<le> ucast (maxSupply tk)) then Inl (Require ''Exceeds supply'')
          else
            let tk1 = tk\<lparr>mintedSupply := ucast newSupply\<rparr> in
            (case asEuint64 cap (ledger tk1) amount of
               None \<Rightarrow> Inl ExternalRevert
             | Some (encryptedAmount, l1) \<Rightarrow>
                 (case erc_mint cap l1 to encryptedAmount of
                    None \<Rightarrow> Inl ExternalRevert
                  | Some l2 \<Rightarrow>
                      Inr (tk1\<lparr>ledger := l2,
                               emitted := emitted tk1 @ [Minted sender to amount]\<rparr>))))"

text \<open>The token after a \<open>mint\<close> transaction: a reverted call leaves it as it was.\<close>

definition after_mint ::
  "('l, 'e) capability \<Rightarrow> address \<Rightarrow> address \<Rightarrow> uint64 \<Rightarrow> 'l GenesisToken
   \<Rightarrow> 'l GenesisToken" where
  "after_mint cap sender to amount tk =
     (case mint cap sender to amount tk of Inl e \<Rightarrow> tk | Inr tk' \<Rightarrow> tk')"

definition details ::
  "'l GenesisToken \<Rightarrow> string \<times> string \<times> uint64 \<times> uint64 \<times> uint256 \<times> address" where
  "details tk =
     (name tk, symbol tk, maxSupply tk, mintedSupply tk, initialPriceWei tk, creator tk)"

subsection \<open>GenesisTokenFactory\<close>

text \<open>
  The chain as far as the factory sees it: \<open>store\<close> holds every deployed
  \<open>GenesisToken\<close> (the address of a token is its position), \<open>tokens\<close> is the
  factory's private array \<open>_tokens\<close>, \<open>factory_emitted\<close> the factory's event log.
\<close>

record 'l world =
  store :: "'l GenesisToken list"
  tokens :: "TokenMetadata list"
  factory_emitted :: "event list"

definition createToken ::
  "('l, 'e) capability \<Rightarrow> address \<Rightarrow> string \<Rightarrow> string \<Rightarrow> uint64 \<Rightarrow> uint256 \<Rightarrow> 'l world
   \<Rightarrow> failure + (address \<times> 'l world)" where
  "createToken cap sender name' symbol' maxSupply' initialPriceWei' w =
     (case GenesisToken_constructor cap name' symbol' maxSupply' initialPriceWei' sender of
        Inl e \<Rightarrow> Inl e
      | Inr tk \<Rightarrow>
          let token' = length (store w) in
          Inr (token',
               w\<lparr>store := store w @ [tk],
                 tokens := tokens w @
                   [\<lparr> token = token', TokenMetadata.name = name',
                      TokenMetadata.symbol = symbol', TokenMetadata.maxSupply = maxSupply',
                      TokenMetadata.mintedSupply = 0,
                      TokenMetadata.initialPriceWei = initialPriceWei',
                      TokenMetadata.creator = sender \<rparr>],
                 factory_emitted := factory_emitted w @
                   [TokenCreated token' sender name' symbol' maxSupply' initialPriceWei']\<rparr>))"

text \<open>The registry after a \<open>createToken\<close> transaction: a reverted call changes nothing.\<close>

definition after_createToken ::
  "('l, 'e) capability \<Rightarrow> address \<Rightarrow> string \<Rightarrow> string \<Rightarrow> uint64 \<Rightarrow> uint256 \<Rightarrow> 'l world
   \<Rightarrow> 'l world" where
  "after_createToken cap sender name' symbol' maxSupply' initialPriceWei' w =
     (case createToken cap sender name' symbol' maxSupply' initialPriceWei' w of
        Inl e \<Rightarrow> w | Inr (a, w') \<Rightarrow> w')"

text \<open>
  \<open>_tokens[i]\<close>: a read of the storage array panics with \<open>0x32\<close> out of range.
  Indices and lengths are \<open>uint256\<close> in the source; no arithmetic that could wrap is
  done on them, so they are natural numbers here.
\<close>

definition tokens_at :: "'l world \<Rightarrow> nat \<Rightarrow> failure + TokenMetadata" where
  "tokens_at w i = (if i < length (tokens w) then Inr (tokens w ! i) else Inl (Panic 0x32))"

text \<open>
  \<open>GenesisToken(a).mintedSupply()\<close>: the external call to the public getter of the
  token at address \<open>a\<close>; it reverts where no token is deployed.
\<close>

definition mintedSupply_of :: "'l world \<Rightarrow> address \<Rightarrow> failure + uint64" where
  "mintedSupply_of w a =
     (if a < length (store w) then Inr (mintedSupply (store w ! a)) else Inl ExternalRevert)"

text \<open>A freshly allocated memory struct: every field is zero.\<close>

definition zero_metadata :: TokenMetadata where
  "zero_metadata =
     \<lparr> token = 0, TokenMetadata.name = [], TokenMetadata.symbol = [],
       TokenMetadata.maxSupply = 0, TokenMetadata.mintedSupply = 0,
       TokenMetadata.initialPriceWei = 0, TokenMetadata.creator = 0 \<rparr>"

text \<open>The \<open>for\<close> loop of \<open>getTokens\<close>; \<open>list\<close> is the memory array being filled.\<close>

function getTokens_loop ::
  "'l world \<Rightarrow> nat \<Rightarrow> nat \<Rightarrow> TokenMetadata list \<Rightarrow> failure + TokenMetadata list" where
  "getTokens_loop w len i list =
     (if i < len then
        case tokens_at w i of
          Inl e \<Rightarrow> Inl e
        | Inr stored \<Rightarrow>
            (case mintedSupply_of w (token stored) of
               Inl e \<Rightarrow> Inl e
             | Inr mintedSupply' \<Rightarrow>
                 if i < length list then
                   getTokens_loop w len (i + 1)
                     (list[i := \<lparr> token = token stored,
                                  TokenMetadata.name = TokenMetadata.name stored,
                                  TokenMetadata.symbol = TokenMetadata.symbol stored,
                                  TokenMetadata.maxSupply = TokenMetadata.maxSupply stored,
                                  TokenMetadata.mintedSupply = mintedSupply',
                                  TokenMetadata.initialPriceWei =
                                    TokenMetadata.initialPriceWei stored,
                                  TokenMetadata.creator = TokenMetadata.creator stored \<rparr>])
                 else Inl (Panic 0x32))
      else Inr list)"
  by pat_completeness auto
termination
  by (relation "measure (\<lambda>(w, len, i, list). len - i)") auto

definition getTokens :: "'l world \<Rightarrow> failure + TokenMetadata list" where
  "getTokens w =
     (let len = length (tokens w) in
      getTokens_loop w len 0 (replicate len zero_metadata))"

definition getToken :: "'l world \<Rightarrow> nat \<Rightarrow> failure + TokenMetadata" where
  "getToken w index =
     (case tokens_at w index of
        Inl e \<Rightarrow> Inl e
      | Inr tokenData \<Rightarrow>
          (case mintedSupply_of w (token tokenData) of
             Inl e \<Rightarrow> Inl e
           | Inr mintedSupply' \<Rightarrow>
               Inr \<lparr> token = token tokenData,
                     TokenMetadata.name = TokenMetadata.name tokenData,
                     TokenMetadata.symbol = TokenMetadata.symbol tokenData,
                     TokenMetadata.maxSupply = TokenMetadata.maxSupply tokenData,
                     TokenMetadata.mintedSupply = mintedSupply',
                     TokenMetadata.initialPriceWei = TokenMetadata.initialPriceWei tokenData,
                     TokenMetadata.creator = TokenMetadata.creator tokenData \<rparr>))"

definition tokenCount :: "'l world \<Rightarrow> nat" where
  "tokenCount w = length (tokens w)"

subsection \<open>Runs and reachable states\<close>

text \<open>
  A sequence of \<open>mint\<close> calls on one token, each call \<open>(sender, to, amount)\<close> its own
  transaction. \<open>mint_run\<close> lists the token after every call.
\<close>

fun mint_run ::
  "('l, 'e) capability \<Rightarrow> 'l GenesisToken \<Rightarrow> (address \<times> address \<times> uint64) list
   \<Rightarrow> 'l GenesisToken list" where
  "mint_run cap tk [] = []"
| "mint_run cap tk ((sender, to, amount) # calls) =
     (let tk' = after_mint cap sender to amount tk in tk' # mint_run cap tk' calls)"

text \<open>The states a token instance can be in: constructed, then minted any number of times.\<close>

inductive token_state :: "('l, 'e) capability \<Rightarrow> 'l GenesisToken \<Rightarrow> bool"
  for cap :: "('l, 'e) capability" where
  constructed:
    "GenesisToken_constructor cap name' symbol' maxSupply' initialPriceWei' creator' = Inr tk
     \<Longrightarrow> token_state cap tk"
| minted:
    "token_state cap tk \<Longrightarrow> mint cap sender to amount tk = Inr tk'
     \<Longrightarrow> token_state cap tk'"

text \<open>
  The states the chain can be in: the factory starts with an empty registry; then
  anyone may create a token through the factory, deploy a \<open>GenesisToken\<close> directly
  (it is then in the store but not in the registry), or mint on a deployed token.
\<close>

inductive world_state :: "('l, 'e) capability \<Rightarrow> 'l world \<Rightarrow> bool"
  for cap :: "('l, 'e) capability" where
  genesis:
    "world_state cap \<lparr> store = [], tokens = [], factory_emitted = [] \<rparr>"
| created:
    "world_state cap w
     \<Longrightarrow> createToken cap sender name' symbol' maxSupply' initialPriceWei' w = Inr (a, w')
     \<Longrightarrow> world_state cap w'"
| deployed:
    "world_state cap w
     \<Longrightarrow> GenesisToken_constructor cap name' symbol' maxSupply' initialPriceWei' creator' = Inr tk
     \<Longrightarrow> world_state cap (w\<lparr>store := store w @ [tk]\<rparr>)"
| minted_at:
    "world_state cap w \<Longrightarrow> a < length (store w)
     \<Longrightarrow> mint cap sender to amount (store w ! a) = Inr tk'
     \<Longrightarrow> world_state cap (w\<lparr>store := (store w)[a := tk']\<rparr>)"

text \<open>The token address a \<open>TokenCreated\<close> event announces.\<close>

fun created_token :: "event \<Rightarrow> address option" where
  "created_token (TokenCreated a c n s m p) = Some a"
| "created_token (Minted s t a) = None"

text \<open>
  The live merge both read functions perform: the stored record with \<open>mintedSupply\<close>
  read from the token instance.
\<close>

definition live_record :: "'l world \<Rightarrow> TokenMetadata \<Rightarrow> TokenMetadata" where
  "live_record w r = r\<lparr>TokenMetadata.mintedSupply := mintedSupply (store w ! token r)\<rparr>"

subsection \<open>Capabilities to run the model on\<close>

text \<open>
  Two stand-ins for the external capability, for evaluating the model on concrete
  inputs: one that records every credit in a list and never reverts, one whose credit
  always reverts.
\<close>

definition recording_capability :: "((address \<times> uint64) list, uint64) capability" where
  "recording_capability =
     \<lparr> ledger0 = [], asEuint64 = (\<lambda>l a. Some (a, l)),
       erc_mint = (\<lambda>l to e. Some (l @ [(to, e)])) \<rparr>"

definition reverting_capability :: "((address \<times> uint64) list, uint64) capability" where
  "reverting_capability =
     \<lparr> ledger0 = [], asEuint64 = (\<lambda>l a. Some (a, l)),
       erc_mint = (\<lambda>l to e. None) \<rparr>"

text \<open>
  The token of the repository's test: "Genesis USD", symbol "gUSD", cap 1,000,000,
  price 0.05 ether, as its constructor leaves it (creator: account 1).
\<close>

definition genesis_usd :: "(address \<times> uint64) list GenesisToken" where
  "genesis_usd =
     \<lparr> name = ''Genesis USD'', symbol = ''gUSD'', maxSupply = 1000000, mintedSupply = 0,
       initialPriceWei = 50000000000000000, creator = 1, ledger = [], emitted = [] \<rparr>"

text \<open>
  A token with the largest cap a \<open>uint64\<close> can hold, after account 2 minted
  \<open>2^64 - 2\<close> units to account 3: one unit below the cap, at the 64-bit boundary.
\<close>

definition near_limit :: "(address \<times> uint64) list GenesisToken" where
  "near_limit =
     \<lparr> name = ''Genesis USD'', symbol = ''gUSD'', maxSupply = 0xFFFFFFFFFFFFFFFF,
       mintedSupply = 0xFFFFFFFFFFFFFFFE, initialPriceWei = 0, creator = 1,
       ledger = [(3, 0xFFFFFFFFFFFFFFFE)],
       emitted = [Minted 2 3 0xFFFFFFFFFFFFFFFE] \<rparr>"

text \<open>
  The chain before anything is created, and after account 1 created the "Genesis USD"
  token through the factory.
\<close>

definition empty_world :: "(address \<times> uint64) list world" where
  "empty_world = \<lparr> store = [], tokens = [], factory_emitted = [] \<rparr>"

definition genesis_world :: "(address \<times> uint64) list world" where
  "genesis_world =
     after_createToken recording_capability 1 ''Genesis USD'' ''gUSD'' 1000000
       50000000000000000 empty_world"

subsection \<open>Invariants\<close>

text \<open>Every handle in the registry is the address of a deployed token.\<close>

definition handles_valid :: "'l world \<Rightarrow> bool" where
  "handles_valid w \<longleftrightarrow> (\<forall>r \<in> set (tokens w). token r < length (store w))"

declare getTokens_loop.simps [simp del]

section \<open>Widened arithmetic\<close>

lemma unat_lt64: "unat (a :: uint64) < 2 ^ 64"
  using unsigned_less [of a, where 'a = nat] by simp

lemma unat_widen: "unat (ucast (a :: uint64) :: uint256) = unat a"
proof -
  have "unat a < 2 ^ 256"
    using unat_lt64 [of a] by (rule less_trans) simp
  then show ?thesis
    by (simp add: unsigned_ucast_eq take_bit_nat_eq_self)
qed

lemma widened_sum_fits: "unat (a :: uint64) + unat (b :: uint64) < 2 ^ 256"
proof -
  have "unat a + unat b < 2 ^ 64 + 2 ^ 64"
    using unat_lt64 [of a] unat_lt64 [of b] by (rule add_strict_mono)
  also have "(2 ^ 64 + 2 ^ 64 :: nat) < 2 ^ 256" by simp
  finally show ?thesis .
qed

lemma checked_add_widened:
  "checked_add (ucast (a :: uint64)) (ucast (b :: uint64)) = Inr (ucast a + ucast b)"
  using widened_sum_fits [of a b] by (simp add: checked_add_def unat_widen)

lemma unat_widened_sum:
  "unat ((ucast (a :: uint64) :: uint256) + ucast (b :: uint64)) = unat a + unat b"
  using widened_sum_fits [of a b] by (simp add: unat_word_ariths unat_widen)

lemma cap_check_exact:
  "((ucast (a :: uint64) :: uint256) + ucast (b :: uint64) \<le> ucast (m :: uint64))
     \<longleftrightarrow> unat a + unat b \<le> unat m"
  by (simp add: word_le_nat_alt unat_widened_sum unat_widen)

lemma truncate_sum:
  assumes "unat (a :: uint64) + unat (b :: uint64) \<le> unat (m :: uint64)"
  shows "unat (ucast ((ucast a :: uint256) + ucast b) :: uint64) = unat a + unat b"
proof -
  have "unat a + unat b < 2 ^ 64" using assms unat_lt64 [of m] by (rule le_less_trans)
  then show ?thesis
    by (simp add: unsigned_ucast_eq unat_widened_sum take_bit_nat_eq_self)
qed

section \<open>The three ways through mint\<close>

lemma mint_zero: "mint cap sender to 0 tk = Inl (Require ''Amount required'')"
  by (simp add: mint_def)

lemma mint_over:
  assumes "amount \<noteq> 0" "unat (maxSupply tk) < unat (mintedSupply tk) + unat amount"
  shows "mint cap sender to amount tk = Inl (Require ''Exceeds supply'')"
  using assms
  by (simp add: mint_def checked_add_widened cap_check_exact word_greater_zero_iff)

lemma mint_within:
  assumes "amount \<noteq> 0" "unat (mintedSupply tk) + unat amount \<le> unat (maxSupply tk)"
  shows "mint cap sender to amount tk =
     (case asEuint64 cap (ledger tk) amount of
        None \<Rightarrow> Inl ExternalRevert
      | Some (enc, l1) \<Rightarrow>
          (case erc_mint cap l1 to enc of
             None \<Rightarrow> Inl ExternalRevert
           | Some l2 \<Rightarrow>
               Inr (tk\<lparr>mintedSupply :=
                          ucast ((ucast (mintedSupply tk) :: uint256) + ucast amount),
                        ledger := l2,
                        emitted := emitted tk @ [Minted sender to amount]\<rparr>)))"
  using assms
  by (simp add: mint_def checked_add_widened cap_check_exact word_greater_zero_iff
      Let_def split: option.splits)

lemma mint_Inr:
  assumes "mint cap sender to amount tk = Inr tk'"
  shows "amount \<noteq> 0"
    and "unat (mintedSupply tk) + unat amount \<le> unat (maxSupply tk)"
    and "unat (mintedSupply tk') = unat (mintedSupply tk) + unat amount"
    and "maxSupply tk' = maxSupply tk"
    and "\<exists>enc l1. asEuint64 cap (ledger tk) amount = Some (enc, l1)
           \<and> erc_mint cap l1 to enc = Some (ledger tk')"
    and "emitted tk' = emitted tk @ [Minted sender to amount]"
proof -
  show nz: "amount \<noteq> 0"
    using assms by (auto simp: mint_zero)
  show le: "unat (mintedSupply tk) + unat amount \<le> unat (maxSupply tk)"
  proof (rule ccontr)
    assume "\<not> ?thesis"
    then have "unat (maxSupply tk) < unat (mintedSupply tk) + unat amount" by simp
    from mint_over [OF nz this, of cap sender to] assms show False by simp
  qed
  note eq = mint_within [OF nz le, of cap sender to]
  show "unat (mintedSupply tk') = unat (mintedSupply tk) + unat amount"
    using assms truncate_sum [OF le] unfolding eq by (auto split: option.splits)
  show "maxSupply tk' = maxSupply tk"
    using assms unfolding eq by (auto split: option.splits)
  show "\<exists>enc l1. asEuint64 cap (ledger tk) amount = Some (enc, l1)
           \<and> erc_mint cap l1 to enc = Some (ledger tk')"
    using assms unfolding eq by (auto split: option.splits)
  show "emitted tk' = emitted tk @ [Minted sender to amount]"
    using assms unfolding eq by (auto split: option.splits)
qed

lemma mint_Inl:
  assumes "mint cap sender to amount tk = Inl e"
  shows "e = Require ''Amount required'' \<and> amount = 0
       \<or> e = Require ''Exceeds supply'' \<and> amount \<noteq> 0
            \<and> unat (maxSupply tk) < unat (mintedSupply tk) + unat amount
       \<or> e = ExternalRevert \<and> amount \<noteq> 0
            \<and> unat (mintedSupply tk) + unat amount \<le> unat (maxSupply tk)"
proof (cases "amount = 0")
  case True
  with assms show ?thesis by (simp add: mint_zero)
next
  case nz: False
  show ?thesis
  proof (cases "unat (maxSupply tk) < unat (mintedSupply tk) + unat amount")
    case True
    from mint_over [OF nz this, of cap sender to] assms nz True show ?thesis by simp
  next
    case False
    then have le: "unat (mintedSupply tk) + unat amount \<le> unat (maxSupply tk)" by simp
    from assms nz le show ?thesis
      unfolding mint_within [OF nz le, of cap sender to] by (auto split: option.splits)
  qed
qed

section \<open>The supply invariant\<close>

lemma constructor_Inr:
  assumes "GenesisToken_constructor cap n s m p c = Inr tk"
  shows "n \<noteq> []" "s \<noteq> []" "m \<noteq> 0"
    and "tk = \<lparr> name = n, symbol = s, maxSupply = m, mintedSupply = 0,
                 initialPriceWei = p, creator = c, ledger = ledger0 cap, emitted = [] \<rparr>"
  using assms
  by (auto simp: GenesisToken_constructor_def word_greater_zero_iff split: if_splits)

lemma token_state_within_cap:
  assumes "token_state cap tk"
  shows "unat (mintedSupply tk) \<le> unat (maxSupply tk)"
  using assms
proof (induction rule: token_state.induct)
  case (constructed n s m p c tk)
  from constructor_Inr(4) [OF this] show ?case by simp
next
  case (minted tk sender to amount tk')
  from mint_Inr(2-4) [OF minted.hyps(2)] show ?case by simp
qed

lemma after_mint_cases:
  "after_mint cap sender to amount tk = tk \<and> (\<exists>e. mint cap sender to amount tk = Inl e)
   \<or> mint cap sender to amount tk = Inr (after_mint cap sender to amount tk)"
  by (cases "mint cap sender to amount tk") (simp_all add: after_mint_def)

lemma after_mint_state:
  assumes "token_state cap tk"
  shows "token_state cap (after_mint cap sender to amount tk)"
  using after_mint_cases [of cap sender to amount tk] assms
  by (auto intro: token_state.minted)

lemma after_mint_monotone:
  "unat (mintedSupply tk) \<le> unat (mintedSupply (after_mint cap sender to amount tk))"
  using after_mint_cases [of cap sender to amount tk]
  by (auto dest: mint_Inr(3))

lemma after_mint_maxSupply:
  "maxSupply (after_mint cap sender to amount tk) = maxSupply tk"
  using after_mint_cases [of cap sender to amount tk]
  by (auto dest: mint_Inr(4))

lemma mint_run_length: "length (mint_run cap tk calls) = length calls"
  by (induction calls arbitrary: tk) (auto simp: Let_def)

lemma mint_run_step:
  assumes "i < length calls" "calls ! i = (sender, to, amount)"
  shows "(tk # mint_run cap tk calls) ! Suc i =
           after_mint cap sender to amount ((tk # mint_run cap tk calls) ! i)"
  using assms
proof (induction calls arbitrary: tk i)
  case Nil
  then show ?case by simp
next
  case (Cons c calls)
  obtain s t a where c: "c = (s, t, a)" by (cases c)
  show ?case
  proof (cases i)
    case 0
    with Cons.prems c show ?thesis by (simp add: Let_def)
  next
    case (Suc j)
    with Cons.prems have "j < length calls" "calls ! j = (sender, to, amount)" by simp_all
    from Cons.IH [OF this, of "after_mint cap s t a tk"] Suc c
    show ?thesis by (simp add: Let_def)
  qed
qed

lemma mint_run_states:
  assumes "token_state cap tk" "i \<le> length calls"
  shows "token_state cap ((tk # mint_run cap tk calls) ! i)
       \<and> maxSupply ((tk # mint_run cap tk calls) ! i) = maxSupply tk"
  using assms
proof (induction calls arbitrary: tk i)
  case Nil
  then show ?case by simp
next
  case (Cons c calls)
  obtain s t a where c: "c = (s, t, a)" by (cases c)
  show ?case
  proof (cases i)
    case 0
    with Cons.prems show ?thesis by simp
  next
    case (Suc j)
    with Cons.prems have j: "j \<le> length calls" by simp
    from Cons.IH [OF after_mint_state [OF Cons.prems(1)] j, of s t a] Suc c
    show ?thesis by (simp add: Let_def after_mint_maxSupply)
  qed
qed

section \<open>The sample token\<close>

lemma genesis_usd_constructed:
  "GenesisToken_constructor recording_capability ''Genesis USD'' ''gUSD'' 1000000
     50000000000000000 1 = Inr genesis_usd"
  by (simp add: GenesisToken_constructor_def recording_capability_def genesis_usd_def)

lemma genesis_usd_state: "token_state recording_capability genesis_usd"
  by (rule token_state.constructed [OF genesis_usd_constructed])

lemma genesis_usd_mint_5:
  "mint recording_capability 2 3 5 genesis_usd =
     Inr (genesis_usd\<lparr>mintedSupply := 5, ledger := [(3, 5)], emitted := [Minted 2 3 5]\<rparr>)"
  by (simp add: mint_def checked_add_def recording_capability_def genesis_usd_def)

lemma genesis_usd_run:
  "mint_run recording_capability genesis_usd [(2, 3, 5), (4, 3, 999995), (2, 6, 1)] =
     [genesis_usd\<lparr>mintedSupply := 5, ledger := [(3, 5)], emitted := [Minted 2 3 5]\<rparr>,
      genesis_usd\<lparr>mintedSupply := 1000000, ledger := [(3, 5), (3, 999995)],
                   emitted := [Minted 2 3 5, Minted 4 3 999995]\<rparr>,
      genesis_usd\<lparr>mintedSupply := 1000000, ledger := [(3, 5), (3, 999995)],
                   emitted := [Minted 2 3 5, Minted 4 3 999995]\<rparr>]"
  by (simp add: after_mint_def mint_def checked_add_def recording_capability_def
      genesis_usd_def Let_def)

section \<open>Claims about the token\<close>

text \<open>
  Claim C1. Take a token instance in any state it can reach and any sequence of
  \<open>mint\<close> calls on it, and let \<open>before\<close> and \<open>after\<close> be the token before and after
  the \<open>i\<close>-th call \<open>(sender, to, amount)\<close>. Then \<open>after\<close> is what that call's
  transaction leaves, \<open>mintedSupply\<close> did not decrease,
  \<open>0 \<le> mintedSupply \<le> maxSupply\<close> holds before and after the call, the cap is the
  one the token started with, and a call that would push \<open>mintedSupply\<close> past
  \<open>maxSupply\<close> (the first such call as much as any later one) reverts with
  "Exceeds supply", the \<open>SupplyExceeded\<close> error, and leaves \<open>mintedSupply\<close> as it was.
  The sums are sums of natural numbers, so nothing wraps.
\<close>

theorem mint_run_supply_invariant:
  assumes "token_state cap tk0" and "i < length calls"
    and "calls ! i = (sender, to, amount)"
  shows "let trace = tk0 # mint_run cap tk0 calls;
             before = trace ! i; after = trace ! Suc i in
         after = after_mint cap sender to amount before
       \<and> unat (mintedSupply before) \<le> unat (mintedSupply after)
       \<and> 0 \<le> unat (mintedSupply before) \<and> unat (mintedSupply before) \<le> unat (maxSupply before)
       \<and> 0 \<le> unat (mintedSupply after) \<and> unat (mintedSupply after) \<le> unat (maxSupply after)
       \<and> maxSupply after = maxSupply tk0
       \<and> (unat (maxSupply before) < unat (mintedSupply before) + unat amount \<longrightarrow>
            mint cap sender to amount before = Inl (Require ''Exceeds supply'')
          \<and> classify (Require ''Exceeds supply'') = SupplyExceeded
          \<and> mintedSupply after = mintedSupply before)"
proof -
  let ?trace = "tk0 # mint_run cap tk0 calls"
  let ?before = "?trace ! i" and ?after = "?trace ! Suc i"
  have step: "?after = after_mint cap sender to amount ?before"
    by (rule mint_run_step [OF assms(2,3)])
  from assms(2) have "i \<le> length calls" "Suc i \<le> length calls" by simp_all
  from mint_run_states [OF assms(1) this(1)] mint_run_states [OF assms(1) this(2)]
  have st: "token_state cap ?before" "token_state cap ?after"
    and mx: "maxSupply ?after = maxSupply tk0" by simp_all
  have mono: "unat (mintedSupply ?before) \<le> unat (mintedSupply ?after)"
    unfolding step by (rule after_mint_monotone)
  have over: "mint cap sender to amount ?before = Inl (Require ''Exceeds supply'')
      \<and> mintedSupply ?after = mintedSupply ?before"
    if "unat (maxSupply ?before) < unat (mintedSupply ?before) + unat amount"
  proof -
    from that token_state_within_cap [OF st(1)] have "amount \<noteq> 0"
      by (auto simp: unat_eq_0 intro: ccontr)
    from mint_over [OF this that, of cap sender to] show ?thesis
      unfolding step by (simp add: after_mint_def)
  qed
  show ?thesis
    unfolding Let_def
    using step mono token_state_within_cap [OF st(1)] token_state_within_cap [OF st(2)] mx over
    by simp
qed

theorem mint_run_supply_invariant_witness:
  "token_state recording_capability genesis_usd
   \<and> (2::nat) < length [(2, 3, 5), (4, 3, 999995), (2::nat, 6::nat, 1::uint64)]
   \<and> [(2, 3, 5), (4, 3, 999995), (2::nat, 6::nat, 1::uint64)] ! 2 = (2, 6, 1)
   \<and> (let trace = genesis_usd #
             mint_run recording_capability genesis_usd [(2, 3, 5), (4, 3, 999995), (2, 6, 1)]
       in unat (maxSupply (trace ! 2)) < unat (mintedSupply (trace ! 2)) + unat (1 :: uint64)
        \<and> mint recording_capability 2 6 1 (trace ! 2) = Inl (Require ''Exceeds supply'')
        \<and> mintedSupply (trace ! 3) = mintedSupply (trace ! 2)
        \<and> mintedSupply (trace ! 3) = 1000000
        \<and> unat (mintedSupply (trace ! 3)) \<le> unat (maxSupply (trace ! 3)))"
proof -
  have run: "unat (maxSupply ((genesis_usd # mint_run recording_capability genesis_usd
                [(2, 3, 5), (4, 3, 999995), (2, 6, 1)]) ! 2))
           < unat (mintedSupply ((genesis_usd # mint_run recording_capability genesis_usd
                [(2, 3, 5), (4, 3, 999995), (2, 6, 1)]) ! 2)) + unat (1 :: uint64)"
    and ms: "mintedSupply ((genesis_usd # mint_run recording_capability genesis_usd
                [(2, 3, 5), (4, 3, 999995), (2, 6, 1)]) ! 2) = 1000000"
    unfolding genesis_usd_run by (simp_all add: genesis_usd_def)
  from mint_run_supply_invariant [OF genesis_usd_state,
      of 2 "[(2, 3, 5), (4, 3, 999995), (2, 6, 1)]" 2 6 1] run ms
  show ?thesis
    by (auto simp: Let_def genesis_usd_state)
qed

text \<open>
  Claim C2. For a token instance in any state it can reach and all inputs, \<open>mint\<close>
  fails with an \<open>InvalidArgument\<close> error exactly when \<open>amount = 0\<close>, and with the
  \<open>SupplyExceeded\<close> error exactly when the exact sum \<open>mintedSupply + amount\<close> is
  above \<open>maxSupply\<close>. In both failure cases the token after the transaction is the
  token before it: \<open>mintedSupply\<close>, the encrypted ledger and every other field are
  unchanged.
\<close>

theorem mint_failure_kinds:
  assumes "token_state cap tk"
  shows "((\<exists>e. mint cap sender to amount tk = Inl e \<and> classify e = InvalidArgument)
            \<longleftrightarrow> amount = 0)
       \<and> ((\<exists>e. mint cap sender to amount tk = Inl e \<and> classify e = SupplyExceeded)
            \<longleftrightarrow> unat (maxSupply tk) < unat (mintedSupply tk) + unat amount)
       \<and> (\<forall>e. mint cap sender to amount tk = Inl e
              \<and> (classify e = InvalidArgument \<or> classify e = SupplyExceeded)
            \<longrightarrow> after_mint cap sender to amount tk = tk
              \<and> mintedSupply (after_mint cap sender to amount tk) = mintedSupply tk
              \<and> ledger (after_mint cap sender to amount tk) = ledger tk)"
proof (intro conjI)
  show "(\<exists>e. mint cap sender to amount tk = Inl e \<and> classify e = InvalidArgument)
          \<longleftrightarrow> amount = 0"
  proof
    assume "\<exists>e. mint cap sender to amount tk = Inl e \<and> classify e = InvalidArgument"
    then obtain e where "mint cap sender to amount tk = Inl e" "classify e = InvalidArgument"
      by blast
    with mint_Inl [OF this(1)] show "amount = 0" by auto
  next
    assume "amount = 0"
    then show "\<exists>e. mint cap sender to amount tk = Inl e \<and> classify e = InvalidArgument"
      by (simp add: mint_zero)
  qed
next
  show "(\<exists>e. mint cap sender to amount tk = Inl e \<and> classify e = SupplyExceeded)
          \<longleftrightarrow> unat (maxSupply tk) < unat (mintedSupply tk) + unat amount"
  proof
    assume "\<exists>e. mint cap sender to amount tk = Inl e \<and> classify e = SupplyExceeded"
    then obtain e where "mint cap sender to amount tk = Inl e" "classify e = SupplyExceeded"
      by blast
    with mint_Inl [OF this(1)]
    show "unat (maxSupply tk) < unat (mintedSupply tk) + unat amount" by auto
  next
    assume over: "unat (maxSupply tk) < unat (mintedSupply tk) + unat amount"
    with token_state_within_cap [OF assms] have "amount \<noteq> 0"
      by (auto simp: unat_eq_0 intro: ccontr)
    from mint_over [OF this over, of cap sender to]
    show "\<exists>e. mint cap sender to amount tk = Inl e \<and> classify e = SupplyExceeded"
      by simp
  qed
next
  show "\<forall>e. mint cap sender to amount tk = Inl e
              \<and> (classify e = InvalidArgument \<or> classify e = SupplyExceeded)
            \<longrightarrow> after_mint cap sender to amount tk = tk
              \<and> mintedSupply (after_mint cap sender to amount tk) = mintedSupply tk
              \<and> ledger (after_mint cap sender to amount tk) = ledger tk"
    by (simp add: after_mint_def)
qed

theorem mint_failure_kinds_witness:
  "token_state recording_capability genesis_usd
   \<and> mint recording_capability 2 3 0 genesis_usd = Inl (Require ''Amount required'')
   \<and> classify (Require ''Amount required'') = InvalidArgument
   \<and> after_mint recording_capability 2 3 0 genesis_usd = genesis_usd
   \<and> unat (maxSupply genesis_usd) < unat (mintedSupply genesis_usd) + unat (1000001 :: uint64)
   \<and> mint recording_capability 2 3 1000001 genesis_usd = Inl (Require ''Exceeds supply'')
   \<and> classify (Require ''Exceeds supply'') = SupplyExceeded
   \<and> after_mint recording_capability 2 3 1000001 genesis_usd = genesis_usd"
proof -
  have over: "unat (maxSupply genesis_usd)
      < unat (mintedSupply genesis_usd) + unat (1000001 :: uint64)"
    by (simp add: genesis_usd_def)
  have z: "mint recording_capability 2 3 0 genesis_usd = Inl (Require ''Amount required'')"
    and x: "mint recording_capability 2 3 1000001 genesis_usd = Inl (Require ''Exceeds supply'')"
    by (simp_all add: mint_def checked_add_def genesis_usd_def)
  from mint_failure_kinds [OF genesis_usd_state, of 2 3 0]
    mint_failure_kinds [OF genesis_usd_state, of 2 3 1000001] over z x
  show ?thesis by (simp add: genesis_usd_state)
qed

text \<open>
  Claim C3 reads "mint succeeds if and only if the exact sum is within the cap" for
  all 64-bit amounts. The cap check alone does not decide success: with \<open>amount = 0\<close>
  the exact sum is within the cap of the fresh "Genesis USD" token, and \<open>mint\<close> still
  reverts, on its first guard \<open>require(amount > 0)\<close>.
\<close>

theorem mint_zero_within_cap_fails:
  "mint recording_capability 2 3 0 genesis_usd = Inl (Require ''Amount required'')
   \<and> unat (mintedSupply genesis_usd) + unat (0 :: uint64) \<le> unat (maxSupply genesis_usd)"
  by (simp add: mint_def genesis_usd_def)

text \<open>
  Claim C3, amended. The cap check is done on 256-bit values, so it compares the exact
  sum: for all 64-bit \<open>mintedSupply\<close>, \<open>amount\<close> and \<open>maxSupply\<close>, also where the sum
  exceeds \<open>2^64 - 1\<close>, a \<open>mint\<close> that succeeds has \<open>amount > 0\<close> and an exact sum
  \<open>mintedSupply + amount \<le> maxSupply\<close>, and it stores exactly that sum; no wrap-around
  lets an over-cap mint succeed. Conversely, when \<open>amount > 0\<close> and the external
  capability does not revert, \<open>mint\<close> succeeds if and only if the exact sum is within
  the cap.
\<close>

theorem mint_succeeds_iff_exact_sum:
  "(\<forall>tk'. mint cap sender to amount tk = Inr tk' \<longrightarrow>
       amount \<noteq> 0 \<and> unat (mintedSupply tk) + unat amount \<le> unat (maxSupply tk)
     \<and> unat (mintedSupply tk') = unat (mintedSupply tk) + unat amount)
   \<and> (amount \<noteq> 0 \<and> asEuint64 cap (ledger tk) amount = Some (enc, l1)
        \<and> erc_mint cap l1 to enc = Some l2 \<longrightarrow>
       ((\<exists>tk'. mint cap sender to amount tk = Inr tk')
          \<longleftrightarrow> unat (mintedSupply tk) + unat amount \<le> unat (maxSupply tk)))"
proof (rule conjI)
  show "\<forall>tk'. mint cap sender to amount tk = Inr tk' \<longrightarrow>
       amount \<noteq> 0 \<and> unat (mintedSupply tk) + unat amount \<le> unat (maxSupply tk)
     \<and> unat (mintedSupply tk') = unat (mintedSupply tk) + unat amount"
    using mint_Inr(1-3) [of cap sender to amount tk] by blast
next
  show "amount \<noteq> 0 \<and> asEuint64 cap (ledger tk) amount = Some (enc, l1)
        \<and> erc_mint cap l1 to enc = Some l2 \<longrightarrow>
       ((\<exists>tk'. mint cap sender to amount tk = Inr tk')
          \<longleftrightarrow> unat (mintedSupply tk) + unat amount \<le> unat (maxSupply tk))"
  proof (intro impI iffI)
    assume "\<exists>tk'. mint cap sender to amount tk = Inr tk'"
    then show "unat (mintedSupply tk) + unat amount \<le> unat (maxSupply tk)"
      by (auto dest: mint_Inr(2))
  next
    assume h: "amount \<noteq> 0 \<and> asEuint64 cap (ledger tk) amount = Some (enc, l1)
        \<and> erc_mint cap l1 to enc = Some l2"
      and le: "unat (mintedSupply tk) + unat amount \<le> unat (maxSupply tk)"
    from h have nz: "amount \<noteq> 0" by simp
    from h show "\<exists>tk'. mint cap sender to amount tk = Inr tk'"
      unfolding mint_within [OF nz le, of cap sender to] by simp
  qed
qed

lemma near_limit_state: "token_state recording_capability near_limit"
proof -
  have c: "GenesisToken_constructor recording_capability ''Genesis USD'' ''gUSD''
      0xFFFFFFFFFFFFFFFF 0 1 =
    Inr \<lparr> name = ''Genesis USD'', symbol = ''gUSD'', maxSupply = 0xFFFFFFFFFFFFFFFF,
          mintedSupply = 0, initialPriceWei = 0, creator = 1, ledger = [], emitted = [] \<rparr>"
    by (simp add: GenesisToken_constructor_def recording_capability_def)
  have m: "mint recording_capability 2 3 0xFFFFFFFFFFFFFFFE
      \<lparr> name = ''Genesis USD'', symbol = ''gUSD'', maxSupply = 0xFFFFFFFFFFFFFFFF,
        mintedSupply = 0, initialPriceWei = 0, creator = 1, ledger = [], emitted = [] \<rparr>
    = Inr near_limit"
    by (simp add: mint_def checked_add_def recording_capability_def near_limit_def)
  show ?thesis
    by (rule token_state.minted [OF token_state.constructed [OF c] m])
qed

theorem mint_succeeds_iff_exact_sum_witness:
  "mint recording_capability 2 3 5 genesis_usd =
     Inr (genesis_usd\<lparr>mintedSupply := 5, ledger := [(3, 5)], emitted := [Minted 2 3 5]\<rparr>)
   \<and> unat (mintedSupply genesis_usd) + unat (5 :: uint64) \<le> unat (maxSupply genesis_usd)
   \<and> (3 :: uint64) \<noteq> 0
   \<and> asEuint64 recording_capability (ledger near_limit) 3 = Some (3, ledger near_limit)
   \<and> erc_mint recording_capability (ledger near_limit) 9 3
       = Some (ledger near_limit @ [(9, 3)])
   \<and> \<not> unat (mintedSupply near_limit) + unat (3 :: uint64) \<le> unat (maxSupply near_limit)
   \<and> mintedSupply near_limit + 3 \<le> maxSupply near_limit
   \<and> mint recording_capability 2 9 3 near_limit = Inl (Require ''Exceeds supply'')"
proof -
  have a: "asEuint64 recording_capability (ledger near_limit) 3 = Some (3, ledger near_limit)"
    and b: "erc_mint recording_capability (ledger near_limit) 9 3
       = Some (ledger near_limit @ [(9, 3)])"
    and c: "\<not> unat (mintedSupply near_limit) + unat (3 :: uint64) \<le> unat (maxSupply near_limit)"
    and d: "mintedSupply near_limit + 3 \<le> maxSupply near_limit"
    by (simp_all add: recording_capability_def near_limit_def)
  have e: "mint recording_capability 2 9 3 near_limit = Inl (Require ''Exceeds supply'')"
    using mint_succeeds_iff_exact_sum
      [of recording_capability 2 9 3 near_limit 3 "ledger near_limit"
        "ledger near_limit @ [(9, 3)]"] a b c
    by (cases "mint recording_capability 2 9 3 near_limit")
      (auto dest: mint_Inl)
  from mint_succeeds_iff_exact_sum [of recording_capability 2 3 5 genesis_usd]
    genesis_usd_mint_5
  have f: "unat (mintedSupply genesis_usd) + unat (5 :: uint64) \<le> unat (maxSupply genesis_usd)"
    by blast
  from a b c d e f genesis_usd_mint_5 show ?thesis by simp
qed

text \<open>
  Claim C8. \<open>mint\<close> does not look at its caller: for any two callers, the same
  recipient, amount and token state, the two calls either both revert with the same
  failure or both succeed with the same \<open>mintedSupply\<close> and the same ledger (the
  results differ only in the caller recorded in the \<open>Minted\<close> event). In particular
  a caller who is not the creator mints successfully to any recipient whenever the
  amount is positive and within the cap and the external capability does not revert.
\<close>

theorem mint_caller_independent:
  "map_sum id (\<lambda>t. (mintedSupply t, ledger t)) (mint cap caller1 to amount tk)
     = map_sum id (\<lambda>t. (mintedSupply t, ledger t)) (mint cap caller2 to amount tk)
   \<and> (caller1 \<noteq> creator tk \<and> amount \<noteq> 0
        \<and> unat (mintedSupply tk) + unat amount \<le> unat (maxSupply tk)
        \<and> asEuint64 cap (ledger tk) amount = Some (enc, l1)
        \<and> erc_mint cap l1 to enc = Some l2
      \<longrightarrow> (\<exists>tk'. mint cap caller1 to amount tk = Inr tk'
             \<and> unat (mintedSupply tk') = unat (mintedSupply tk) + unat amount
             \<and> ledger tk' = l2))"
proof (rule conjI)
  show "map_sum id (\<lambda>t. (mintedSupply t, ledger t)) (mint cap caller1 to amount tk)
     = map_sum id (\<lambda>t. (mintedSupply t, ledger t)) (mint cap caller2 to amount tk)"
  proof (cases "amount = 0")
    case True
    then show ?thesis by (simp add: mint_zero)
  next
    case nz: False
    show ?thesis
    proof (cases "unat (maxSupply tk) < unat (mintedSupply tk) + unat amount")
      case True
      show ?thesis
        by (simp add: mint_over [OF nz True])
    next
      case False
      then have le: "unat (mintedSupply tk) + unat amount \<le> unat (maxSupply tk)" by simp
      show ?thesis
        unfolding mint_within [OF nz le] by (simp split: option.splits)
    qed
  qed
next
  show "caller1 \<noteq> creator tk \<and> amount \<noteq> 0
        \<and> unat (mintedSupply tk) + unat amount \<le> unat (maxSupply tk)
        \<and> asEuint64 cap (ledger tk) amount = Some (enc, l1)
        \<and> erc_mint cap l1 to enc = Some l2
      \<longrightarrow> (\<exists>tk'. mint cap caller1 to amount tk = Inr tk'
             \<and> unat (mintedSupply tk') = unat (mintedSupply tk) + unat amount
             \<and> ledger tk' = l2)"
  proof (rule impI)
    assume h: "caller1 \<noteq> creator tk \<and> amount \<noteq> 0
        \<and> unat (mintedSupply tk) + unat amount \<le> unat (maxSupply tk)
        \<and> asEuint64 cap (ledger tk) amount = Some (enc, l1)
        \<and> erc_mint cap l1 to enc = Some l2"
    then have nz: "amount \<noteq> 0"
      and le: "unat (mintedSupply tk) + unat amount \<le> unat (maxSupply tk)" by simp_all
    from h truncate_sum [OF le]
    show "\<exists>tk'. mint cap caller1 to amount tk = Inr tk'
             \<and> unat (mintedSupply tk') = unat (mintedSupply tk) + unat amount
             \<and> ledger tk' = l2"
      unfolding mint_within [OF nz le, of cap caller1 to] by simp
  qed
qed

theorem mint_caller_independent_witness:
  "(2 :: address) \<noteq> creator genesis_usd \<and> (5 :: uint64) \<noteq> 0
   \<and> unat (mintedSupply genesis_usd) + unat (5 :: uint64) \<le> unat (maxSupply genesis_usd)
   \<and> asEuint64 recording_capability (ledger genesis_usd) 5 = Some (5, [])
   \<and> erc_mint recording_capability [] 3 5 = Some [(3, 5)]
   \<and> (\<exists>tk'. mint recording_capability 2 3 5 genesis_usd = Inr tk'
         \<and> unat (mintedSupply tk') = unat (mintedSupply genesis_usd) + unat (5 :: uint64)
         \<and> ledger tk' = [(3, 5)])"
proof -
  have h: "(2 :: address) \<noteq> creator genesis_usd \<and> (5 :: uint64) \<noteq> 0
   \<and> unat (mintedSupply genesis_usd) + unat (5 :: uint64) \<le> unat (maxSupply genesis_usd)
   \<and> asEuint64 recording_capability (ledger genesis_usd) 5 = Some (5, [])
   \<and> erc_mint recording_capability [] 3 5 = Some [(3, 5)]"
    by (simp add: genesis_usd_def recording_capability_def)
  from mint_caller_independent
    [of recording_capability 2 3 5 genesis_usd 2 5 "[]" "[(3, 5)]", THEN conjunct2, rule_format, OF h]
    h
  show ?thesis by blast
qed

text \<open>
  Claim C9. If the confidential-computation capability reverts during a \<open>mint\<close> call
  (the encoding \<open>FHE.asEuint64\<close> or the credit \<open>_mint\<close>, reached once both guards have
  passed), the whole call reverts and the token after the transaction is the token before
  it: \<open>mintedSupply\<close> is not advanced, although the code writes it before calling the
  capability. Supply update and credit go together: a call that succeeds has advanced
  \<open>mintedSupply\<close> by \<open>amount\<close> and holds the ledger the capability returned, and a call
  that fails has changed neither.
\<close>

theorem mint_capability_failure_atomic:
  "(amount \<noteq> 0 \<and> unat (mintedSupply tk) + unat amount \<le> unat (maxSupply tk)
      \<and> (asEuint64 cap (ledger tk) amount = None
          \<or> (\<exists>enc l1. asEuint64 cap (ledger tk) amount = Some (enc, l1)
                \<and> erc_mint cap l1 to enc = None))
    \<longrightarrow> mint cap sender to amount tk = Inl ExternalRevert
      \<and> after_mint cap sender to amount tk = tk
      \<and> mintedSupply (after_mint cap sender to amount tk) = mintedSupply tk)
   \<and> (\<forall>tk'. mint cap sender to amount tk = Inr tk' \<longrightarrow>
         unat (mintedSupply tk') = unat (mintedSupply tk) + unat amount
       \<and> (\<exists>enc l1. asEuint64 cap (ledger tk) amount = Some (enc, l1)
             \<and> erc_mint cap l1 to enc = Some (ledger tk')))
   \<and> (\<forall>e. mint cap sender to amount tk = Inl e \<longrightarrow>
         mintedSupply (after_mint cap sender to amount tk) = mintedSupply tk
       \<and> ledger (after_mint cap sender to amount tk) = ledger tk)"
proof (intro conjI)
  show "amount \<noteq> 0 \<and> unat (mintedSupply tk) + unat amount \<le> unat (maxSupply tk)
      \<and> (asEuint64 cap (ledger tk) amount = None
          \<or> (\<exists>enc l1. asEuint64 cap (ledger tk) amount = Some (enc, l1)
                \<and> erc_mint cap l1 to enc = None))
    \<longrightarrow> mint cap sender to amount tk = Inl ExternalRevert
      \<and> after_mint cap sender to amount tk = tk
      \<and> mintedSupply (after_mint cap sender to amount tk) = mintedSupply tk"
  proof (rule impI)
    assume h: "amount \<noteq> 0 \<and> unat (mintedSupply tk) + unat amount \<le> unat (maxSupply tk)
      \<and> (asEuint64 cap (ledger tk) amount = None
          \<or> (\<exists>enc l1. asEuint64 cap (ledger tk) amount = Some (enc, l1)
                \<and> erc_mint cap l1 to enc = None))"
    then have nz: "amount \<noteq> 0"
      and le: "unat (mintedSupply tk) + unat amount \<le> unat (maxSupply tk)" by simp_all
    from h have "mint cap sender to amount tk = Inl ExternalRevert"
      unfolding mint_within [OF nz le, of cap sender to] by auto
    then show "mint cap sender to amount tk = Inl ExternalRevert
      \<and> after_mint cap sender to amount tk = tk
      \<and> mintedSupply (after_mint cap sender to amount tk) = mintedSupply tk"
      by (simp add: after_mint_def)
  qed
next
  show "\<forall>tk'. mint cap sender to amount tk = Inr tk' \<longrightarrow>
         unat (mintedSupply tk') = unat (mintedSupply tk) + unat amount
       \<and> (\<exists>enc l1. asEuint64 cap (ledger tk) amount = Some (enc, l1)
             \<and> erc_mint cap l1 to enc = Some (ledger tk'))"
    using mint_Inr(3,5) [of cap sender to amount tk] by blast
next
  show "\<forall>e. mint cap sender to amount tk = Inl e \<longrightarrow>
         mintedSupply (after_mint cap sender to amount tk) = mintedSupply tk
       \<and> ledger (after_mint cap sender to amount tk) = ledger tk"
    by (simp add: after_mint_def)
qed

theorem mint_capability_failure_atomic_witness:
  "(5 :: uint64) \<noteq> 0
   \<and> unat (mintedSupply genesis_usd) + unat (5 :: uint64) \<le> unat (maxSupply genesis_usd)
   \<and> asEuint64 reverting_capability (ledger genesis_usd) 5 = Some (5, [])
   \<and> erc_mint reverting_capability [] 3 5 = None
   \<and> mint reverting_capability 2 3 5 genesis_usd = Inl ExternalRevert
   \<and> after_mint reverting_capability 2 3 5 genesis_usd = genesis_usd
   \<and> mint recording_capability 2 3 5 genesis_usd =
       Inr (genesis_usd\<lparr>mintedSupply := 5, ledger := [(3, 5)], emitted := [Minted 2 3 5]\<rparr>)"
proof -
  have h: "(5 :: uint64) \<noteq> 0
   \<and> unat (mintedSupply genesis_usd) + unat (5 :: uint64) \<le> unat (maxSupply genesis_usd)
   \<and> asEuint64 reverting_capability (ledger genesis_usd) 5 = Some (5, [])
   \<and> erc_mint reverting_capability [] 3 5 = None"
    by (simp add: genesis_usd_def reverting_capability_def)
  from mint_capability_failure_atomic [of 5 genesis_usd reverting_capability 3 2] h
    mint_capability_failure_atomic [of 5 genesis_usd recording_capability 3 2]
    genesis_usd_mint_5
  show ?thesis by simp
qed

section \<open>The registry\<close>

lemma createToken_Inr:
  assumes "createToken cap sender n s m p w = Inr (a, w')"
  shows "a = length (store w)"
    and "\<exists>tk. GenesisToken_constructor cap n s m p sender = Inr tk \<and> store w' = store w @ [tk]"
    and "tokens w' = tokens w @
           [\<lparr> token = a, TokenMetadata.name = n, TokenMetadata.symbol = s,
              TokenMetadata.maxSupply = m, TokenMetadata.mintedSupply = 0,
              TokenMetadata.initialPriceWei = p, TokenMetadata.creator = sender \<rparr>]"
    and "factory_emitted w' = factory_emitted w @ [TokenCreated a sender n s m p]"
  using assms by (auto simp: createToken_def Let_def split: sum.splits)

lemma constructor_valid:
  assumes "n \<noteq> []" "s \<noteq> []" "m \<noteq> 0"
  shows "GenesisToken_constructor cap n s m p c =
           Inr \<lparr> name = n, symbol = s, maxSupply = m, mintedSupply = 0,
                 initialPriceWei = p, creator = c, ledger = ledger0 cap, emitted = [] \<rparr>"
  using assms by (simp add: GenesisToken_constructor_def word_greater_zero_iff)

lemma constructor_invalid:
  assumes "n = [] \<or> s = [] \<or> m = 0"
  shows "\<exists>e. GenesisToken_constructor cap n s m p c = Inl e \<and> classify e = InvalidArgument"
  using assms by (auto simp: GenesisToken_constructor_def)

lemma world_state_handles_valid:
  assumes "world_state cap w"
  shows "handles_valid w"
  using assms
proof (induction rule: world_state.induct)
  case genesis
  show ?case by (simp add: handles_valid_def)
next
  case (created w sender n s m p a w')
  from createToken_Inr [OF created.hyps(2)] created.IH
  show ?case by (auto simp: handles_valid_def less_Suc_eq)
next
  case (deployed w n s m p c tk)
  then show ?case by (auto simp: handles_valid_def less_Suc_eq)
next
  case (minted_at w a sender to amount tk')
  then show ?case by (simp add: handles_valid_def)
qed

lemma world_state_creation_order:
  assumes "world_state cap w"
  shows "List.map_filter created_token (factory_emitted w) = map token (tokens w)"
  using assms
proof (induction rule: world_state.induct)
  case genesis
  show ?case by (simp add: map_filter_def)
next
  case (created w sender n s m p a w')
  from createToken_Inr [OF created.hyps(2)] created.IH
  show ?case by (simp add: map_filter_def)
next
  case (deployed w n s m p c tk)
  then show ?case by simp
next
  case (minted_at w a sender to amount tk')
  then show ?case by simp
qed

lemma merged_record:
  "\<lparr> token = token r, TokenMetadata.name = TokenMetadata.name r,
     TokenMetadata.symbol = TokenMetadata.symbol r,
     TokenMetadata.maxSupply = TokenMetadata.maxSupply r,
     TokenMetadata.mintedSupply = mintedSupply (store w ! token r),
     TokenMetadata.initialPriceWei = TokenMetadata.initialPriceWei r,
     TokenMetadata.creator = TokenMetadata.creator r \<rparr> = live_record w r"
  by (cases r) (simp add: live_record_def)

lemma getToken_valid:
  assumes "handles_valid w" "i < length (tokens w)"
  shows "getToken w i = Inr (live_record w (tokens w ! i))"
proof -
  from assms have "token (tokens w ! i) < length (store w)"
    by (simp add: handles_valid_def)
  with assms(2) show ?thesis
    by (simp add: getToken_def tokens_at_def mintedSupply_of_def merged_record)
qed

lemma getToken_out_of_range:
  assumes "length (tokens w) \<le> i"
  shows "getToken w i = Inl (Panic 0x32)"
  using assms by (simp add: getToken_def tokens_at_def)

lemma getTokens_loop_valid:
  assumes "handles_valid w" "len = length (tokens w)" "length list = len" "i \<le> len"
  shows "getTokens_loop w len i list =
           Inr (take i list @ map (live_record w) (drop i (tokens w)))"
  using assms
proof (induction "len - i" arbitrary: i list)
  case 0
  then have "i = len" by simp
  with 0 show ?case
    by (subst getTokens_loop.simps) simp
next
  case (Suc k)
  then have lt: "i < len" by simp
  let ?r = "tokens w ! i"
  let ?list = "list[i := live_record w ?r]"
  from Suc.prems lt have h: "token ?r < length (store w)"
    by (simp add: handles_valid_def)
  have step: "getTokens_loop w len i list = getTokens_loop w len (i + 1) ?list"
    using Suc.prems lt h
    by (subst getTokens_loop.simps)
      (simp add: tokens_at_def mintedSupply_of_def merged_record)
  have "k = len - (i + 1)" using Suc.hyps(2) by simp
  from Suc.hyps(1) [OF this Suc.prems(1,2)] Suc.prems(3) lt
  have ih: "getTokens_loop w len (i + 1) ?list =
          Inr (take (i + 1) ?list @ map (live_record w) (drop (i + 1) (tokens w)))"
    by simp
  have t: "take (i + 1) ?list = take i list @ [live_record w ?r]"
    using Suc.prems(3) lt by (simp add: take_Suc_conv_app_nth)
  have d: "drop i (tokens w) = ?r # drop (i + 1) (tokens w)"
    using Suc.prems(2) lt by (simp add: Cons_nth_drop_Suc)
  show ?case unfolding step ih t d by simp
qed

lemma getTokens_valid:
  assumes "handles_valid w"
  shows "getTokens w = Inr (map (live_record w) (tokens w))"
  using getTokens_loop_valid [OF assms refl, of "replicate (length (tokens w)) zero_metadata" 0]
  by (simp add: getTokens_def Let_def)

lemma genesis_world_created:
  "createToken recording_capability 1 ''Genesis USD'' ''gUSD'' 1000000 50000000000000000
     empty_world = Inr (0, genesis_world)"
  by (simp add: genesis_world_def after_createToken_def createToken_def
      GenesisToken_constructor_def empty_world_def Let_def)

lemma genesis_world_eq:
  "genesis_world =
     \<lparr> store = [genesis_usd],
       tokens = [\<lparr> token = 0, TokenMetadata.name = ''Genesis USD'',
                   TokenMetadata.symbol = ''gUSD'', TokenMetadata.maxSupply = 1000000,
                   TokenMetadata.mintedSupply = 0,
                   TokenMetadata.initialPriceWei = 50000000000000000,
                   TokenMetadata.creator = 1 \<rparr>],
       factory_emitted =
         [TokenCreated 0 1 ''Genesis USD'' ''gUSD'' 1000000 50000000000000000] \<rparr>"
  by (simp add: genesis_world_def after_createToken_def createToken_def
      GenesisToken_constructor_def empty_world_def Let_def genesis_usd_def
      recording_capability_def)

lemma empty_world_state: "world_state recording_capability empty_world"
  unfolding empty_world_def by (rule world_state.genesis)

lemma genesis_world_state: "world_state recording_capability genesis_world"
  by (rule world_state.created [OF empty_world_state genesis_world_created])

text \<open>The world after account 2 minted 5 units of the first token to account 3.\<close>

lemma minted_world_state:
  "world_state recording_capability
     (genesis_world\<lparr>store := [genesis_usd\<lparr>mintedSupply := 5, ledger := [(3, 5)],
                                         emitted := [Minted 2 3 5]\<rparr>]\<rparr>)"
proof -
  have "world_state recording_capability
     (genesis_world\<lparr>store := (store genesis_world)[0 :=
        genesis_usd\<lparr>mintedSupply := 5, ledger := [(3, 5)], emitted := [Minted 2 3 5]\<rparr>]\<rparr>)"
    by (rule world_state.minted_at [OF genesis_world_state, where sender = 2 and to = 3
          and amount = 5])
      (simp_all add: genesis_world_eq genesis_usd_mint_5)
  then show ?thesis by (simp add: genesis_world_eq)
qed

section \<open>Claims about the factory\<close>

text \<open>
  Claim C4. \<open>createToken\<close> with an empty name, an empty symbol or \<open>maxSupply = 0\<close>
  reverts with an \<open>InvalidArgument\<close> error, the one the token's constructor raised,
  so no token instance is deployed; after the transaction the store of deployed tokens,
  the registry sequence and the event log are what they were.
\<close>

theorem createToken_invalid_argument:
  assumes "name' = [] \<or> symbol' = [] \<or> maxSupply' = 0"
  shows "\<exists>e. createToken cap sender name' symbol' maxSupply' initialPriceWei' w = Inl e
           \<and> classify e = InvalidArgument
           \<and> after_createToken cap sender name' symbol' maxSupply' initialPriceWei' w = w
           \<and> GenesisToken_constructor cap name' symbol' maxSupply' initialPriceWei' sender
               = Inl e"
proof -
  from constructor_invalid [OF assms, of cap initialPriceWei' sender]
  obtain e where "GenesisToken_constructor cap name' symbol' maxSupply' initialPriceWei' sender
      = Inl e" "classify e = InvalidArgument" by blast
  then show ?thesis
    by (simp add: createToken_def after_createToken_def)
qed

theorem createToken_invalid_argument_witness:
  "(''Genesis USD'' = [] \<or> ''gUSD'' = [] \<or> (0 :: uint64) = 0)
   \<and> createToken recording_capability 1 ''Genesis USD'' ''gUSD'' 0 7 genesis_world
       = Inl (Require ''Max supply required'')
   \<and> createToken recording_capability 1 [] ''gUSD'' 9 7 genesis_world
       = Inl (Require ''Name required'')
   \<and> createToken recording_capability 1 ''Genesis USD'' [] 9 7 genesis_world
       = Inl (Require ''Symbol required'')
   \<and> after_createToken recording_capability 1 ''Genesis USD'' ''gUSD'' 0 7 genesis_world
       = genesis_world"
proof -
  have h: "''Genesis USD'' = [] \<or> ''gUSD'' = [] \<or> (0 :: uint64) = 0" by simp
  have e: "createToken recording_capability 1 ''Genesis USD'' ''gUSD'' 0 7 genesis_world
       = Inl (Require ''Max supply required'')"
    "createToken recording_capability 1 [] ''gUSD'' 9 7 genesis_world
       = Inl (Require ''Name required'')"
    "createToken recording_capability 1 ''Genesis USD'' [] 9 7 genesis_world
       = Inl (Require ''Symbol required'')"
    by (simp_all add: createToken_def GenesisToken_constructor_def)
  from createToken_invalid_argument
    [of "''Genesis USD''" "''gUSD''" 0 recording_capability 1 7 genesis_world] h e
  show ?thesis by auto
qed

text \<open>
  Claim C5. In any state the chain can reach, \<open>createToken\<close> with a non-empty name, a
  non-empty symbol and \<open>maxSupply > 0\<close> succeeds; it increases \<open>tokenCount\<close> by exactly
  1, appends exactly one record to the registry, whose \<open>mintedSupply\<close> is 0 in the
  stored record, in \<open>getToken\<close> at the new index and in the last element of
  \<open>getTokens\<close>; it deploys exactly one token; and it modifies no existing record: the
  earlier records and deployed tokens are a prefix of the new ones, and both reads
  return for them what they returned before.
\<close>

theorem createToken_appends_one_record:
  assumes "world_state cap w" and "name' \<noteq> []" and "symbol' \<noteq> []" and "maxSupply' \<noteq> 0"
  shows "\<exists>a w' r tk.
           createToken cap sender name' symbol' maxSupply' initialPriceWei' w = Inr (a, w')
         \<and> tokenCount w' = tokenCount w + 1
         \<and> tokens w' = tokens w @ [r] \<and> TokenMetadata.mintedSupply r = 0
         \<and> store w' = store w @ [tk] \<and> mintedSupply tk = 0
         \<and> a = length (store w) \<and> token r = a
         \<and> (\<exists>r'. getToken w' (tokenCount w) = Inr r' \<and> TokenMetadata.mintedSupply r' = 0
                \<and> token r' = a)
         \<and> (\<exists>old new. getTokens w = Inr old \<and> getTokens w' = Inr (old @ [new])
                \<and> length old = tokenCount w \<and> TokenMetadata.mintedSupply new = 0
                \<and> token new = a)
         \<and> (\<forall>i < tokenCount w. getToken w' i = getToken w i)
         \<and> world_state cap w'"
proof -
  let ?tk = "\<lparr> name = name', symbol = symbol', maxSupply = maxSupply', mintedSupply = 0,
               initialPriceWei = initialPriceWei', creator = sender, ledger = ledger0 cap,
               emitted = [] \<rparr>"
  let ?a = "length (store w)"
  let ?r = "\<lparr> token = ?a, TokenMetadata.name = name', TokenMetadata.symbol = symbol',
              TokenMetadata.maxSupply = maxSupply', TokenMetadata.mintedSupply = 0,
              TokenMetadata.initialPriceWei = initialPriceWei',
              TokenMetadata.creator = sender \<rparr>"
  let ?w' = "w\<lparr>store := store w @ [?tk], tokens := tokens w @ [?r],
               factory_emitted := factory_emitted w @
                 [TokenCreated ?a sender name' symbol' maxSupply' initialPriceWei']\<rparr>"
  have c: "createToken cap sender name' symbol' maxSupply' initialPriceWei' w = Inr (?a, ?w')"
    by (simp add: createToken_def constructor_valid [OF assms(2-4)] Let_def)
  have ws: "world_state cap ?w'"
    by (rule world_state.created [OF assms(1) c])
  have hv: "handles_valid w" "handles_valid ?w'"
    by (rule world_state_handles_valid [OF assms(1)], rule world_state_handles_valid [OF ws])
  have live_old: "live_record ?w' r = live_record w r" if "r \<in> set (tokens w)" for r
    using that hv(1) by (simp add: live_record_def handles_valid_def nth_append)
  have live_new: "live_record ?w' ?r = ?r"
    by (simp add: live_record_def)
  have gt: "getToken ?w' (tokenCount w) = Inr ?r"
    using getToken_valid [OF hv(2), of "tokenCount w"]
    by (simp add: tokenCount_def live_new)
  have gts: "getTokens w = Inr (map (live_record w) (tokens w))"
    "getTokens ?w' = Inr (map (live_record w) (tokens w) @ [?r])"
    using getTokens_valid [OF hv(1)] getTokens_valid [OF hv(2)] live_old
    by (simp_all add: live_new cong: map_cong)
  have old: "getToken ?w' i = getToken w i" if "i < tokenCount w" for i
    using that getToken_valid [OF hv(2), of i] getToken_valid [OF hv(1), of i] live_old
    by (simp add: tokenCount_def nth_append)
  show ?thesis
    apply (rule exI [of _ ?a], rule exI [of _ ?w'], rule exI [of _ ?r], rule exI [of _ ?tk])
    using c ws gt gts old by (simp add: tokenCount_def)
qed

theorem createToken_appends_one_record_witness:
  "world_state recording_capability genesis_world
   \<and> ''Second'' \<noteq> [] \<and> ''S2'' \<noteq> [] \<and> (10 :: uint64) \<noteq> 0
   \<and> tokenCount genesis_world = 1
   \<and> tokenCount (after_createToken recording_capability 4 ''Second'' ''S2'' 10 0 genesis_world)
       = 2
   \<and> (\<exists>r. getToken (after_createToken recording_capability 4 ''Second'' ''S2'' 10 0
                      genesis_world) 1 = Inr r
         \<and> TokenMetadata.mintedSupply r = 0)
   \<and> (0 :: nat) < tokenCount genesis_world
   \<and> getToken (after_createToken recording_capability 4 ''Second'' ''S2'' 10 0
                  genesis_world) 0 = getToken genesis_world 0"
proof -
  have h: "''Second'' \<noteq> []" "''S2'' \<noteq> []" "(10 :: uint64) \<noteq> 0" by simp_all
  from createToken_appends_one_record [OF genesis_world_state h, of 4 0]
  obtain a w' where c: "createToken recording_capability 4 ''Second'' ''S2'' 10 0 genesis_world
      = Inr (a, w')"
    and n: "tokenCount w' = tokenCount genesis_world + 1"
    and g: "\<exists>r'. getToken w' (tokenCount genesis_world) = Inr r'
        \<and> TokenMetadata.mintedSupply r' = 0 \<and> token r' = a"
    and o: "\<forall>i < tokenCount genesis_world. getToken w' i = getToken genesis_world i"
    by blast
  have one: "tokenCount genesis_world = 1"
    by (simp add: tokenCount_def genesis_world_eq)
  from c have "after_createToken recording_capability 4 ''Second'' ''S2'' 10 0 genesis_world = w'"
    by (simp add: after_createToken_def)
  with n g o one genesis_world_state show ?thesis by auto
qed

text \<open>
  Claim C6. In any state the chain can reach, \<open>getTokens\<close> (the \<open>listTokens\<close> of the
  design) returns the stored records in the order of the registry sequence, each with
  its \<open>mintedSupply\<close> field replaced by the \<open>mintedSupply\<close> counter of the token
  instance its handle names, and every handle names a deployed token. The registry
  order is the creation order: the handles of the records are, in order, the tokens
  announced by the factory's \<open>TokenCreated\<close> events. The function is a \<open>view\<close>: it
  takes the state and returns only the list, so it changes no state.
\<close>

theorem getTokens_live_merge:
  assumes "world_state cap w"
  shows "getTokens w =
           Inr (map (\<lambda>r. r\<lparr>TokenMetadata.mintedSupply := mintedSupply (store w ! token r)\<rparr>)
                  (tokens w))
       \<and> (\<forall>r \<in> set (tokens w). token r < length (store w))
       \<and> map token (tokens w) = List.map_filter created_token (factory_emitted w)"
  using getTokens_valid [OF world_state_handles_valid [OF assms]]
    world_state_handles_valid [OF assms] world_state_creation_order [OF assms]
  by (simp add: live_record_def handles_valid_def)

theorem getTokens_live_merge_witness:
  "world_state recording_capability
     (genesis_world\<lparr>store := [genesis_usd\<lparr>mintedSupply := 5, ledger := [(3, 5)],
                                         emitted := [Minted 2 3 5]\<rparr>]\<rparr>)
   \<and> getTokens (genesis_world\<lparr>store := [genesis_usd\<lparr>mintedSupply := 5, ledger := [(3, 5)],
                                         emitted := [Minted 2 3 5]\<rparr>]\<rparr>)
     = Inr [\<lparr> token = 0, TokenMetadata.name = ''Genesis USD'',
              TokenMetadata.symbol = ''gUSD'', TokenMetadata.maxSupply = 1000000,
              TokenMetadata.mintedSupply = 5,
              TokenMetadata.initialPriceWei = 50000000000000000,
              TokenMetadata.creator = 1 \<rparr>]"
  using getTokens_live_merge [OF minted_world_state] minted_world_state
  by (simp add: genesis_world_eq)

text \<open>
  Claim C7. For every \<open>index \<ge> tokenCount()\<close>, \<open>getToken(index)\<close> reverts with the
  array-bounds panic \<open>0x32\<close>, the \<open>IndexOutOfRange\<close> error. In any state the chain can
  reach and for every \<open>index < tokenCount()\<close>, it succeeds and returns the stored record
  with \<open>mintedSupply\<close> replaced by the counter of the token instance the record's
  handle names.
\<close>

theorem getToken_index:
  "(tokenCount w \<le> index \<longrightarrow>
      getToken w index = Inl (Panic 0x32) \<and> classify (Panic 0x32) = IndexOutOfRange)
   \<and> (world_state cap w \<and> index < tokenCount w \<longrightarrow>
      getToken w index =
        Inr ((tokens w ! index)
               \<lparr>TokenMetadata.mintedSupply := mintedSupply (store w ! token (tokens w ! index))\<rparr>)
      \<and> token (tokens w ! index) < length (store w))"
proof (intro conjI impI)
  assume "tokenCount w \<le> index"
  then show "getToken w index = Inl (Panic 0x32)"
    by (simp add: getToken_out_of_range tokenCount_def)
next
  show "classify (Panic 0x32) = IndexOutOfRange" by simp
next
  assume h: "world_state cap w \<and> index < tokenCount w"
  then have ws: "world_state cap w" and lt: "index < length (tokens w)"
    by (simp_all add: tokenCount_def)
  have hv: "handles_valid w"
    by (rule world_state_handles_valid [OF ws])
  from getToken_valid [OF hv lt]
  show "getToken w index =
        Inr ((tokens w ! index)
               \<lparr>TokenMetadata.mintedSupply := mintedSupply (store w ! token (tokens w ! index))\<rparr>)"
    by (simp add: live_record_def)
  from hv lt show "token (tokens w ! index) < length (store w)"
    by (simp add: handles_valid_def)
qed

theorem getToken_index_witness:
  "tokenCount genesis_world \<le> 1
   \<and> getToken genesis_world 1 = Inl (Panic 0x32)
   \<and> world_state recording_capability
       (genesis_world\<lparr>store := [genesis_usd\<lparr>mintedSupply := 5, ledger := [(3, 5)],
                                           emitted := [Minted 2 3 5]\<rparr>]\<rparr>)
   \<and> 0 < tokenCount (genesis_world\<lparr>store := [genesis_usd\<lparr>mintedSupply := 5,
            ledger := [(3, 5)], emitted := [Minted 2 3 5]\<rparr>]\<rparr>)
   \<and> getToken (genesis_world\<lparr>store := [genesis_usd\<lparr>mintedSupply := 5, ledger := [(3, 5)],
                                         emitted := [Minted 2 3 5]\<rparr>]\<rparr>) 0
     = Inr \<lparr> token = 0, TokenMetadata.name = ''Genesis USD'',
              TokenMetadata.symbol = ''gUSD'', TokenMetadata.maxSupply = 1000000,
              TokenMetadata.mintedSupply = 5,
              TokenMetadata.initialPriceWei = 50000000000000000,
              TokenMetadata.creator = 1 \<rparr>"
  using getToken_index [of genesis_world 1 recording_capability]
    getToken_index [of "genesis_world\<lparr>store := [genesis_usd\<lparr>mintedSupply := 5,
            ledger := [(3, 5)], emitted := [Minted 2 3 5]\<rparr>]\<rparr>" 0 recording_capability]
    minted_world_state
  by (simp add: genesis_world_eq tokenCount_def)

text \<open>
  Claim C10. In any state the chain can reach and for every \<open>i < tokenCount()\<close>, both
  reads succeed on the same state, \<open>getTokens\<close> returns \<open>tokenCount()\<close> records, and
  the record \<open>getToken(i)\<close> returns is the \<open>i\<close>-th element of the list \<open>getTokens\<close>
  returns, equal in every field including the live \<open>mintedSupply\<close>.
\<close>

theorem getToken_agrees_with_getTokens:
  assumes "world_state cap w" and "i < tokenCount w"
  shows "\<exists>list r. getTokens w = Inr list \<and> getToken w i = Inr r
           \<and> length list = tokenCount w \<and> r = list ! i"
  using getTokens_valid [OF world_state_handles_valid [OF assms(1)]]
    getToken_valid [OF world_state_handles_valid [OF assms(1)], of i] assms(2)
  by (simp add: tokenCount_def)

theorem getToken_agrees_with_getTokens_witness:
  "world_state recording_capability genesis_world \<and> 0 < tokenCount genesis_world
   \<and> (\<exists>list r. getTokens genesis_world = Inr list \<and> getToken genesis_world 0 = Inr r
         \<and> length list = tokenCount genesis_world \<and> r = list ! 0)"
proof -
  have h: "0 < tokenCount genesis_world"
    by (simp add: tokenCount_def genesis_world_eq)
  from getToken_agrees_with_getTokens [OF genesis_world_state h] genesis_world_state h
  show ?thesis by blast
qed

end
